theory Spec2Isabelle
  imports Complex_Main "HOL-Library.Sublist" "HOL-Library.Multiset" "HOL-Library.AList"
begin

section \<open>Python values used by the tracker\<close>

text \<open>
  The tracker of \<^verbatim>\<open>startup_tracker.py\<close> works on rows read by \<^verbatim>\<open>csv.DictReader\<close>: a
  dictionary from column names to cells. A cell is a text, or Python's \<^verbatim>\<open>None\<close> where the
  row is shorter than the header (the reader's \<^verbatim>\<open>restval\<close>). A row is an association
  list in column order; a lookup reads the first entry of a key. (The surplus cells of a
  row longer than the header are kept under the key \<^verbatim>\<open>None\<close>, which the tracker never
  reads; they are left out.)

  Texts are modelled as ASCII strings: \<open>upper\<close> and \<open>lower\<close> change the letters a to z
  only and leave every other character as it is.
\<close>

datatype pyval = Str string | PyNone

type_synonym startup = "(string \<times> pyval) list"

datatype exn = ValueError | AttributeError

definition get :: "startup \<Rightarrow> string \<Rightarrow> pyval \<Rightarrow> pyval" where
  "get d k dflt = (case map_of d k of None \<Rightarrow> dflt | Some v \<Rightarrow> v)"

definition setitem :: "startup \<Rightarrow> string \<Rightarrow> pyval \<Rightarrow> startup" where
  "setitem d k v = AList.update k v d"

subsection \<open>String methods\<close>

definition upper_char :: "char \<Rightarrow> char" where
  "upper_char c =
     (case map_of (zip ''abcdefghijklmnopqrstuvwxyz'' ''ABCDEFGHIJKLMNOPQRSTUVWXYZ'') c of
        None \<Rightarrow> c | Some u \<Rightarrow> u)"

definition lower_char :: "char \<Rightarrow> char" where
  "lower_char c =
     (case map_of (zip ''ABCDEFGHIJKLMNOPQRSTUVWXYZ'' ''abcdefghijklmnopqrstuvwxyz'') c of
        None \<Rightarrow> c | Some l \<Rightarrow> l)"

definition upper :: "string \<Rightarrow> string" where
  "upper s = map upper_char s"

definition lower :: "string \<Rightarrow> string" where
  "lower s = map lower_char s"

text \<open>\<^verbatim>\<open>s.replace(old, new)\<close> for a one-character \<open>old\<close>: every occurrence is replaced.\<close>

definition replace :: "string \<Rightarrow> char \<Rightarrow> string \<Rightarrow> string" where
  "replace s old new = concat (map (\<lambda>c. if c = old then new else [c]) s)"

text \<open>\<^verbatim>\<open>needle in hay\<close> on strings: \<open>needle\<close> occurs as a contiguous block of \<open>hay\<close>.\<close>

fun str_in :: "string \<Rightarrow> string \<Rightarrow> bool" where
  "str_in needle [] = (needle = [])"
| "str_in needle (c # cs) = (prefix needle (c # cs) \<or> str_in needle cs)"

section \<open>Floating-point numbers\<close>

text \<open>
  A Python float is an IEEE 754 binary64 value. A finite one is modelled by the rational
  number it denotes; the two zeros are one value (the tracker only compares a float with
  the threshold and prints floats that passed it, and both zeros fail it). The
  constructor \<^verbatim>\<open>float\<close>, the product and the format are Python's own; they are modelled
  as the language defines them, with results rounded to the nearest binary64 value.
\<close>

datatype pyfloat = Finite rat | PosInf | NegInf | NaN

definition pow2 :: "int \<Rightarrow> rat" where
  "pow2 e = (if 0 \<le> e then 2 ^ nat e else 1 / 2 ^ nat (- e))"

text \<open>The number of binary digits of a positive integer.\<close>

function bitlen :: "int \<Rightarrow> int" where
  "bitlen n = (if n \<le> 0 then 0 else 1 + bitlen (n div 2))"
  by pat_completeness auto
termination
  by (relation "measure nat") auto

declare bitlen.simps [simp del]

text \<open>\<open>ilog2 a\<close> is the exponent \<open>e\<close> with \<open>2^e \<le> a < 2^(e+1)\<close>, for a positive \<open>a\<close>.\<close>

definition ilog2 :: "rat \<Rightarrow> int" where
  "ilog2 a =
     (let (p, q) = quotient_of a;
          d = bitlen p - bitlen q
      in if pow2 d \<le> a then d else d - 1)"

definition round_half_even :: "rat \<Rightarrow> int" where
  "round_half_even x =
     (let f = \<lfloor>x\<rfloor>; d = x - of_int f
      in if d < 1 / 2 then f else if 1 / 2 < d then f + 1
         else if even f then f else f + 1)"

text \<open>
  Rounding a rational to the nearest binary64 value, ties to even: 53 significant bits
  \<open>n\<close> at the exponent \<open>e\<close> of the number, the smallest exponent being -1022 (below
  it the spacing stays \<open>2^-1074\<close>). The result is infinite when the rounded value
  reaches \<open>2^1024\<close>: the exponent is 1024 or more, or it is 1023 and the bits round up
  to \<open>2^53\<close>.
\<close>

definition round_double :: "rat \<Rightarrow> pyfloat" where
  "round_double x =
     (if x = 0 then Finite 0
      else let a = \<bar>x\<bar>;
               e = max (ilog2 a) (- 1022)
           in if 1024 \<le> e then (if 0 < x then PosInf else NegInf)
              else let q = pow2 (e - 52);
                       n = round_half_even (a / q)
                   in if e = 1023 \<and> n = 2 ^ 53 then (if 0 < x then PosInf else NegInf)
                      else Finite (if 0 < x then of_int n * q else - (of_int n * q)))"

text \<open>\<^verbatim>\<open>x * n\<close> for floats (the integer \<open>n\<close> of the source is converted exactly).\<close>

fun float_mul :: "pyfloat \<Rightarrow> pyfloat \<Rightarrow> pyfloat" where
  "float_mul (Finite a) (Finite b) = round_double (a * b)"
| "float_mul NaN _ = NaN"
| "float_mul _ NaN = NaN"
| "float_mul PosInf (Finite b) = (if 0 < b then PosInf else if b < 0 then NegInf else NaN)"
| "float_mul NegInf (Finite b) = (if 0 < b then NegInf else if b < 0 then PosInf else NaN)"
| "float_mul (Finite a) PosInf = (if 0 < a then PosInf else if a < 0 then NegInf else NaN)"
| "float_mul (Finite a) NegInf = (if 0 < a then NegInf else if a < 0 then PosInf else NaN)"
| "float_mul PosInf PosInf = PosInf"
| "float_mul NegInf NegInf = PosInf"
| "float_mul PosInf NegInf = NegInf"
| "float_mul NegInf PosInf = NegInf"

text \<open>\<^verbatim>\<open>x < y\<close> and \<^verbatim>\<open>x >= y\<close> on floats: every comparison with a NaN is false.\<close>

fun float_lt :: "pyfloat \<Rightarrow> pyfloat \<Rightarrow> bool" where
  "float_lt NaN _ = False"
| "float_lt _ NaN = False"
| "float_lt (Finite a) (Finite b) = (a < b)"
| "float_lt NegInf NegInf = False"
| "float_lt NegInf _ = True"
| "float_lt _ NegInf = False"
| "float_lt PosInf _ = False"
| "float_lt (Finite a) PosInf = True"

fun float_ge :: "pyfloat \<Rightarrow> pyfloat \<Rightarrow> bool" where
  "float_ge NaN _ = False"
| "float_ge _ NaN = False"
| "float_ge x y = (\<not> float_lt x y)"

subsection \<open>The constructor \<^verbatim>\<open>float(text)\<close>\<close>

definition is_space :: "char \<Rightarrow> bool" where
  "is_space c = (c \<in> set [CHR 0x09, CHR 0x0A, CHR 0x0B, CHR 0x0C, CHR 0x0D, CHR '' ''])"

definition is_digit :: "char \<Rightarrow> bool" where
  "is_digit c = (c \<in> set ''0123456789'')"

definition digit_val :: "char \<Rightarrow> int" where
  "digit_val c = (case map_of (zip ''0123456789'' [0, 1, 2, 3, 4, 5, 6, 7, 8, 9]) c of
                    None \<Rightarrow> 0 | Some d \<Rightarrow> d)"

text \<open>The value of a digit string, most significant digit first.\<close>

definition int_of_digits :: "string \<Rightarrow> int" where
  "int_of_digits ds = foldl (\<lambda>n c. 10 * n + digit_val c) 0 ds"

text \<open>
  An underscore is allowed between two digits only; the underscores are dropped before
  the text is parsed. \<open>prev\<close> is the character before, NUL at the start.
\<close>

fun drop_underscores :: "char \<Rightarrow> string \<Rightarrow> string option" where
  "drop_underscores prev [] = (if prev = CHR ''_'' then None else Some [])"
| "drop_underscores prev (c # cs) =
     (if c = CHR ''_''
      then (if is_digit prev then drop_underscores c cs else None)
      else if prev = CHR ''_'' \<and> \<not> is_digit c then None
      else map_option ((#) c) (drop_underscores c cs))"

definition NUL :: char where
  "NUL = CHR 0x00"

definition split_sign :: "string \<Rightarrow> bool \<times> string" where
  "split_sign s =
     (case s of
        [] \<Rightarrow> (False, [])
      | c # cs \<Rightarrow> if c = CHR ''-'' then (True, cs)
                  else if c = CHR ''+'' then (False, cs) else (False, s))"

text \<open>
  A decimal literal: sign, digits with an optional point (at least one digit in all), and
  an optional exponent \<open>e\<close> or \<open>E\<close> with its own sign and at least one digit. The whole
  text must be used.
\<close>

definition parse_exponent :: "string \<Rightarrow> int option" where
  "parse_exponent s =
     (case s of
        [] \<Rightarrow> Some 0
      | c # cs \<Rightarrow>
          if c = CHR ''e'' \<or> c = CHR ''E''
          then (let (neg, ds) = split_sign cs
                in if ds \<noteq> [] \<and> list_all is_digit ds
                   then Some (if neg then - int_of_digits ds else int_of_digits ds)
                   else None)
          else None)"

text \<open>The digits after a point, when the text starts with one, and the text after them.\<close>

definition split_point :: "string \<Rightarrow> string \<times> string" where
  "split_point r =
     (case r of
        [] \<Rightarrow> ([], [])
      | c # cs \<Rightarrow> if c = CHR ''.'' then (takeWhile is_digit cs, dropWhile is_digit cs)
                  else ([], r))"

definition scale10 :: "rat \<Rightarrow> int \<Rightarrow> rat" where
  "scale10 m k = (if 0 \<le> k then m * 10 ^ nat k else m / 10 ^ nat (- k))"

definition parse_decimal :: "string \<Rightarrow> rat option" where
  "parse_decimal s =
     (let (neg, r1) = split_sign s;
          ip = takeWhile is_digit r1;
          (fp, r3) = split_point (dropWhile is_digit r1)
      in if ip = [] \<and> fp = [] then None
         else case parse_exponent r3 of
                None \<Rightarrow> None
              | Some e \<Rightarrow>
                  let v = scale10 (of_int (int_of_digits (ip @ fp))) (e - int (length fp))
                  in Some (if neg then - v else v))"

definition parse_inf_or_nan :: "string \<Rightarrow> pyfloat option" where
  "parse_inf_or_nan s =
     (let (neg, r) = split_sign s; w = lower r
      in if w = ''inf'' \<or> w = ''infinity'' then Some (if neg then NegInf else PosInf)
         else if w = ''nan'' then Some NaN
         else None)"

text \<open>
  \<^verbatim>\<open>float(s)\<close>: the underscores are checked and dropped, the white space at both ends
  is stripped, and what is left must be a decimal literal, whose value is rounded, or
  one of \<open>inf\<close>, \<open>infinity\<close> and \<open>nan\<close> with an optional sign, in any case; else
  \<^verbatim>\<open>ValueError\<close> is raised.
\<close>

definition float :: "string \<Rightarrow> exn + pyfloat" where
  "float s =
     (case drop_underscores NUL s of
        None \<Rightarrow> Inl ValueError
      | Some d \<Rightarrow>
          let t = rev (dropWhile is_space (rev (dropWhile is_space d)))
          in case parse_decimal t of
               Some v \<Rightarrow> Inr (round_double v)
             | None \<Rightarrow> (case parse_inf_or_nan t of
                          Some f \<Rightarrow> Inr f
                        | None \<Rightarrow> Inl ValueError))"

text \<open>
  \<^verbatim>\<open>f"${funding:,.0f}"\<close>: a dollar sign, then the float with no decimals (rounded to the
  nearest integer, ties to even) and a comma between groups of three digits.
\<close>

definition digit_char :: "int \<Rightarrow> char" where
  "digit_char d = ''0123456789'' ! nat d"

function digits_of :: "int \<Rightarrow> string" where
  "digits_of n = (if n < 10 then [digit_char n] else digits_of (n div 10) @ [digit_char (n mod 10)])"
  by pat_completeness auto
termination
  by (relation "measure nat") auto

declare digits_of.simps [simp del]

fun commas_rev :: "string \<Rightarrow> string" where
  "commas_rev (a # b # c # d # rest) = a # b # c # CHR '','' # commas_rev (d # rest)"
| "commas_rev ds = ds"

definition group_thousands :: "string \<Rightarrow> string" where
  "group_thousands ds = rev (commas_rev (rev ds))"

definition format_funding :: "pyfloat \<Rightarrow> string" where
  "format_funding funding =
     ''$'' @ (case funding of
                Finite r \<Rightarrow> (if r < 0 then ''-'' else []) @
                            group_thousands (digits_of \<bar>round_half_even r\<bar>)
              | PosInf \<Rightarrow> ''inf''
              | NegInf \<Rightarrow> ''-inf''
              | NaN \<Rightarrow> ''nan'')"

section \<open>The tracker\<close>

text \<open>
  An exception raised by a step ends the steps after it (\<open>attempt\<close>). A string method
  called on \<^verbatim>\<open>None\<close> raises \<^verbatim>\<open>AttributeError\<close> (\<open>as_str\<close>).
\<close>

definition attempt :: "exn + 'a \<Rightarrow> ('a \<Rightarrow> exn + 'b) \<Rightarrow> exn + 'b" where
  "attempt r k = (case r of Inl e \<Rightarrow> Inl e | Inr x \<Rightarrow> k x)"

fun as_str :: "pyval \<Rightarrow> exn + string" where
  "as_str (Str s) = Inr s"
| "as_str PyNone = Inl AttributeError"

definition min_funding :: rat where
  "min_funding = 100000000"

definition target_regions :: "string list" where
  "target_regions =
     [''usa'', ''united states'', ''us'', ''america'',
      ''europe'', ''uk'', ''united kingdom'', ''germany'', ''france'',
      ''spain'', ''italy'', ''netherlands'', ''sweden'', ''ireland'',
      ''belgium'', ''austria'', ''denmark'', ''finland'', ''norway'',
      ''switzerland'', ''portugal'', ''poland'']"

subsection \<open>\<^verbatim>\<open>filter_startups\<close>\<close>

text \<open>Lines 55 to 63: the funding text of a row becomes a float.\<close>

definition parse_funding :: "string \<Rightarrow> exn + pyfloat" where
  "parse_funding text =
     (let funding_str = replace (replace text (CHR '','') []) (CHR ''$'') []
      in if str_in ''M'' (upper funding_str)
         then attempt (float (replace (upper funding_str) (CHR ''M'') []))
                (\<lambda>f. Inr (float_mul f (Finite 1000000)))
         else if str_in ''B'' (upper funding_str)
         then attempt (float (replace (upper funding_str) (CHR ''B'') []))
                (\<lambda>f. Inr (float_mul f (Finite 1000000000)))
         else float funding_str)"

text \<open>Lines 70 to 73: the four criteria.\<close>

definition meets_funding :: "pyfloat \<Rightarrow> bool" where
  "meets_funding funding = float_ge funding (Finite min_funding)"

definition meets_location :: "string \<Rightarrow> bool" where
  "meets_location location = list_ex (\<lambda>region. str_in region location) target_regions"

definition meets_status :: "string \<Rightarrow> bool" where
  "meets_status status = (str_in ''active'' status \<or> status = [])"

definition not_ipod :: "string \<Rightarrow> bool" where
  "not_ipod ipo_status = (ipo_status \<notin> set [''ipo'', ''public'', ''listed''])"

text \<open>
  Lines 55 to 77, the body of the \<^verbatim>\<open>try\<close> for one row: an exception, or the row as it is
  appended to \<^verbatim>\<open>filtered\<close> (with the key \<^verbatim>\<open>funding_amount_parsed\<close> set), or nothing when
  a criterion fails.
\<close>

definition try_body :: "startup \<Rightarrow> exn + startup option" where
  "try_body startup =
     attempt (as_str (get startup ''funding_amount'' (Str ''0''))) (\<lambda>text.
     attempt (parse_funding text) (\<lambda>funding.
     attempt (as_str (get startup ''location'' (Str []))) (\<lambda>loc.
     attempt (as_str (get startup ''status'' (Str []))) (\<lambda>st.
     attempt (as_str (get startup ''ipo_status'' (Str []))) (\<lambda>ipo.
       let location = lower loc; status = lower st; ipo_status = lower ipo
       in if meets_funding funding \<and> meets_location location
             \<and> meets_status status \<and> not_ipod ipo_status
          then Inr (Some (setitem startup ''funding_amount_parsed''
                            (Str (format_funding funding))))
          else Inr None)))))"

text \<open>
  Lines 79 to 81: the warning printed for a row whose \<^verbatim>\<open>try\<close> raised \<^verbatim>\<open>ValueError\<close>; it
  names the company (\<^verbatim>\<open>None\<close> prints as the text None).
\<close>

datatype message = SkippingRow string

definition warning :: "startup \<Rightarrow> message" where
  "warning startup =
     SkippingRow (case get startup ''company_name'' (Str ''Unknown'') of
                    Str name \<Rightarrow> name | PyNone \<Rightarrow> ''None'')"

text \<open>
  A call of \<^verbatim>\<open>filter_startups\<close>: \<open>store\<close> is \<^verbatim>\<open>self.startups\<close> after the call (an accepted
  row is changed in place, and the list returned holds the same row), \<open>printed\<close> the
  warnings in order, \<open>outcome\<close> the list returned or the exception that left the loop.
  Only \<^verbatim>\<open>ValueError\<close> and \<^verbatim>\<open>TypeError\<close> are caught.
\<close>

record run =
  store :: "startup list"
  printed :: "message list"
  outcome :: "exn + startup list"

fun filter_startups :: "startup list \<Rightarrow> run" where
  "filter_startups [] = \<lparr>store = [], printed = [], outcome = Inr []\<rparr>"
| "filter_startups (startup # rest) =
     (case try_body startup of
        Inl ValueError \<Rightarrow>
          (let r = filter_startups rest
           in \<lparr>store = startup # store r, printed = warning startup # printed r,
               outcome = outcome r\<rparr>)
      | Inl AttributeError \<Rightarrow>
          \<lparr>store = startup # rest, printed = [], outcome = Inl AttributeError\<rparr>
      | Inr None \<Rightarrow>
          (let r = filter_startups rest
           in \<lparr>store = startup # store r, printed = printed r, outcome = outcome r\<rparr>)
      | Inr (Some startup') \<Rightarrow>
          (let r = filter_startups rest
           in \<lparr>store = startup' # store r, printed = printed r,
               outcome = attempt (outcome r) (\<lambda>filtered. Inr (startup' # filtered))\<rparr>))"

subsection \<open>\<^verbatim>\<open>export_to_csv\<close>\<close>

definition fieldnames :: "string list" where
  "fieldnames =
     [''company_name'', ''funding_amount_parsed'', ''location'',
      ''status'', ''ipo_status'', ''funding_round'',
      ''description'', ''website'', ''founded_year'']"

text \<open>
  The writer takes the cells of the columns \<open>fieldnames\<close> from a row, the empty text for
  a missing key or \<^verbatim>\<open>None\<close>, and ignores every other key.
\<close>

definition csv_row :: "startup \<Rightarrow> string list" where
  "csv_row startup =
     map (\<lambda>k. case get startup k (Str []) of Str s \<Rightarrow> s | PyNone \<Rightarrow> []) fieldnames"

text \<open>
  \<open>export_to_csv filtered_startups io_ok\<close> gives the value returned and the rows of the
  file written, header first. \<open>io_ok\<close> says whether opening and writing the file
  succeed; when they do not, the exception is caught and \<^verbatim>\<open>False\<close> is returned.
\<close>

definition export_to_csv :: "startup list \<Rightarrow> bool \<Rightarrow> bool \<times> string list list option" where
  "export_to_csv filtered_startups io_ok =
     (if filtered_startups = [] then (False, None)
      else if io_ok then (True, Some (fieldnames # map csv_row filtered_startups))
      else (False, None))"

subsection \<open>\<^verbatim>\<open>display_summary\<close>\<close>

text \<open>
  \<^verbatim>\<open>sorted(xs, key=..., reverse=True)\<close>: the keys are computed first, for every element in
  order; then the elements are sorted by \<^verbatim>\<open><\<close> on the keys, largest first, elements with
  equal keys in their order in \<open>xs\<close>. (With a NaN among the keys Python's order depends
  on the steps of its sorting algorithm; this insertion sort is the model for keys that
  \<^verbatim>\<open><\<close> orders linearly.)
\<close>

fun insert_desc :: "('k \<Rightarrow> 'k \<Rightarrow> bool) \<Rightarrow> 'k \<times> 'a \<Rightarrow> ('k \<times> 'a) list \<Rightarrow> ('k \<times> 'a) list" where
  "insert_desc lt x [] = [x]"
| "insert_desc lt x (y # ys) =
     (if lt (fst x) (fst y) then y # insert_desc lt x ys else x # y # ys)"

definition sorted_reverse :: "('k \<Rightarrow> 'k \<Rightarrow> bool) \<Rightarrow> ('k \<times> 'a) list \<Rightarrow> 'a list" where
  "sorted_reverse lt kxs = map snd (foldr (insert_desc lt) kxs [])"

text \<open>Lines 124 to 127: the count of rows per location, in order of first appearance.\<close>

definition count_location :: "(pyval \<times> nat) list \<Rightarrow> startup \<Rightarrow> (pyval \<times> nat) list" where
  "count_location locs startup =
     (let loc = get startup ''location'' (Str ''Unknown'')
      in AList.update loc ((case map_of locs loc of None \<Rightarrow> 0 | Some n \<Rightarrow> n) + 1) locs)"

definition locations :: "startup list \<Rightarrow> (pyval \<times> nat) list" where
  "locations filtered_startups = foldl count_location [] filtered_startups"

text \<open>Line 137: the sort key of a row, the float read back from the text printed.\<close>

definition funding_key :: "startup \<Rightarrow> exn + pyfloat" where
  "funding_key x =
     attempt (as_str (get x ''funding_amount_parsed'' (Str ''$0'')))
       (\<lambda>s. float (replace (replace s (CHR ''$'') []) (CHR '','') []))"

fun with_keys :: "startup list \<Rightarrow> exn + (pyfloat \<times> startup) list" where
  "with_keys [] = Inr []"
| "with_keys (x # xs) =
     attempt (funding_key x) (\<lambda>k. attempt (with_keys xs) (\<lambda>kxs. Inr ((k, x) # kxs)))"

text \<open>Lines 135 to 139.\<close>

definition sorted_startups :: "startup list \<Rightarrow> exn + startup list" where
  "sorted_startups filtered_startups =
     attempt (with_keys filtered_startups) (\<lambda>kxs. Inr (sorted_reverse float_lt kxs))"

text \<open>
  What \<^verbatim>\<open>display_summary\<close> prints: nothing for an empty list; else the ten locations with
  the most rows and the five rows with the largest key.
\<close>

record summary =
  by_location :: "(pyval \<times> nat) list"
  top_funded :: "startup list"

definition display_summary :: "startup list \<Rightarrow> exn + summary option" where
  "display_summary filtered_startups =
     (if filtered_startups = [] then Inr None
      else attempt (sorted_startups filtered_startups) (\<lambda>ranked.
             Inr (Some \<lparr>by_location =
                          take 10 (sorted_reverse (<)
                                     (map (\<lambda>x. (snd x, x)) (locations filtered_startups))),
                        top_funded = take 5 ranked\<rparr>)))"

section \<open>The eligibility rule in the words of the specification\<close>

text \<open>
  A raw record of the specification maps field names to texts: \<open>text_row\<close> holds of a
  row none of whose cells is \<^verbatim>\<open>None\<close>. \<open>field r k d\<close> is the text of the field \<open>k\<close>,
  \<open>d\<close> when the row has no such field.
\<close>

definition text_row :: "startup \<Rightarrow> bool" where
  "text_row r = list_all (\<lambda>kv. snd kv \<noteq> PyNone) r"

definition field :: "startup \<Rightarrow> string \<Rightarrow> string \<Rightarrow> string" where
  "field r k d = (case get r k (Str d) of Str s \<Rightarrow> s | PyNone \<Rightarrow> d)"

text \<open>
  The four predicates of the eligibility filter as the specification words them: the
  funding text parses and the amount is at least 100,000,000; the case-folded location
  contains a target region; the case-folded status contains \<open>active\<close> or is empty; the
  case-folded IPO status is none of \<open>ipo\<close>, \<open>public\<close>, \<open>listed\<close>. Containment is
  \<^const>\<open>sublist\<close>: a contiguous block.
\<close>

definition eligible :: "startup \<Rightarrow> bool" where
  "eligible r =
     (case parse_funding (field r ''funding_amount'' ''0'') of
        Inl _ \<Rightarrow> False
      | Inr amount \<Rightarrow>
          float_ge amount (Finite 100000000)
          \<and> list_ex (\<lambda>region. sublist region (lower (field r ''location'' []))) target_regions
          \<and> (sublist ''active'' (lower (field r ''status'' []))
               \<or> lower (field r ''status'' []) = [])
          \<and> lower (field r ''ipo_status'' []) \<noteq> ''ipo''
          \<and> lower (field r ''ipo_status'' []) \<noteq> ''public''
          \<and> lower (field r ''ipo_status'' []) \<noteq> ''listed'')"

text \<open>An eligible record: the raw record with the funding display value added.\<close>

definition with_parsed :: "startup \<Rightarrow> startup" where
  "with_parsed r =
     (case parse_funding (field r ''funding_amount'' ''0'') of
        Inl _ \<Rightarrow> r
      | Inr amount \<Rightarrow> setitem r ''funding_amount_parsed'' (Str (format_funding amount)))"

text \<open>
  The sort key of a row for which line 137 computes one (a row of the list that
  \<^verbatim>\<open>filter_startups\<close> returned): the float read back from the display text.
\<close>

definition key_of :: "startup \<Rightarrow> pyfloat" where
  "key_of x = (case funding_key x of Inl _ \<Rightarrow> NaN | Inr k \<Rightarrow> k)"

text \<open>
  The float that the display text of an amount denotes: the amount rounded to a whole
  number (and that number as a float).
\<close>

definition displayed_value :: "pyfloat \<Rightarrow> pyfloat" where
  "displayed_value amount =
     (case amount of
        Finite q \<Rightarrow> round_double (of_int (round_half_even q))
      | PosInf \<Rightarrow> PosInf | NegInf \<Rightarrow> NegInf | NaN \<Rightarrow> NaN)"

section \<open>Substring containment\<close>

lemma str_in_sublist: "str_in needle hay = sublist needle hay"
  by (induction hay) (simp_all add: sublist_Cons_right)

lemma str_in_char: "str_in [c] s = (c \<in> set s)"
  by (induction s) auto

lemma lower_Nil_iff: "(lower s = []) = (s = [])"
  by (simp add: lower_def)

section \<open>Display texts and their sort keys\<close>

lemma replace_remove: "replace s c [] = filter (\<lambda>x. x \<noteq> c) s"
  by (induction s) (simp_all add: replace_def)

lemma is_digit_not_special:
  "is_digit c \<Longrightarrow> c \<noteq> CHR '','' \<and> c \<noteq> CHR ''$'' \<and> c \<noteq> CHR ''_'' \<and> c \<noteq> CHR ''-''
     \<and> c \<noteq> CHR ''+'' \<and> c \<noteq> CHR ''.'' \<and> \<not> is_space c"
  by (auto simp: is_digit_def is_space_def)

lemma is_digit_digit_char: "0 \<le> d \<Longrightarrow> d < 10 \<Longrightarrow> is_digit (digit_char d)"
proof -
  assume "0 \<le> d" "d < 10"
  then have "nat d < length ''0123456789''" by simp
  then have "''0123456789'' ! nat d \<in> set ''0123456789''" by (rule nth_mem)
  then show ?thesis by (simp only: is_digit_def digit_char_def)
qed

lemma digits_of_digits: "0 \<le> n \<Longrightarrow> list_all is_digit (digits_of n)"
proof (induction n rule: digits_of.induct)
  case (1 n)
  show ?case
  proof (cases "n < 10")
    case True
    with 1 show ?thesis by (simp add: digits_of.simps [of n] is_digit_digit_char)
  next
    case False
    with 1 have "list_all is_digit (digits_of (n div 10))" by simp
    moreover have "is_digit (digit_char (n mod 10))" by (rule is_digit_digit_char) simp_all
    ultimately show ?thesis using False by (simp add: digits_of.simps [of n])
  qed
qed

lemma digits_of_nonempty: "digits_of n \<noteq> []"
  by (simp add: digits_of.simps [of n])

lemma commas_rev_filter:
  "filter (\<lambda>x. x \<noteq> CHR '','') (commas_rev ds) = filter (\<lambda>x. x \<noteq> CHR '','') ds"
  by (induction ds rule: commas_rev.induct) simp_all

lemma group_thousands_filter:
  "filter (\<lambda>x. x \<noteq> CHR '','') (group_thousands ds) = filter (\<lambda>x. x \<noteq> CHR '','') ds"
  by (simp add: group_thousands_def commas_rev_filter flip: rev_filter)

lemma drop_underscores_none:
  "CHR ''_'' \<notin> set s \<Longrightarrow> prev \<noteq> CHR ''_'' \<Longrightarrow> drop_underscores prev s = Some s"
  by (induction s arbitrary: prev) auto

lemma float_digits:
  assumes "ds \<noteq> []" "list_all is_digit ds"
  shows "float ds = Inr (round_double (of_int (int_of_digits ds)))"
proof -
  from assms have all: "\<forall>c\<in>set ds. is_digit c" by (simp add: list_all_iff)
  then have "CHR ''_'' \<notin> set ds" using is_digit_not_special by blast
  then have u: "drop_underscores NUL ds = Some ds"
    by (rule drop_underscores_none) (simp add: NUL_def)
  from assms obtain c cs where ds: "ds = c # cs" by (cases ds) auto
  with all have c: "is_digit c" by simp
  have l: "dropWhile is_space ds = ds"
    using c is_digit_not_special by (simp add: ds)
  have "is_digit (last ds)" using all assms(1) by simp
  then have "\<not> is_space (hd (rev ds))" using is_digit_not_special assms(1) by (simp add: hd_rev)
  then have r: "dropWhile is_space (rev ds) = rev ds"
    using assms(1) by (cases "rev ds") auto
  have s: "split_sign ds = (False, ds)"
    using c is_digit_not_special by (auto simp: split_sign_def ds)
  have t: "takeWhile is_digit ds = ds" "dropWhile is_digit ds = []"
    using all by simp_all
  have "parse_decimal ds = Some (of_int (int_of_digits ds))"
    using assms(1) by (simp add: parse_decimal_def s t parse_exponent_def split_point_def scale10_def)
  then show ?thesis by (simp add: float_def u l r)
qed

lemma round_double_not_NaN: "round_double x \<noteq> NaN"
  by (simp add: round_double_def Let_def)


lemma get_setitem:
  "get (setitem d k v) k' dflt = (if k' = k then v else get d k' dflt)"
  by (simp add: get_def setitem_def update_conv')

lemma as_str_Inr: "(as_str v = Inr s) = (v = Str s)"
  by (cases v) auto

lemma try_body_SomeD:
  assumes "try_body r = Inr (Some r')"
  shows "\<exists>text f. get r ''funding_amount'' (Str ''0'') = Str text \<and> parse_funding text = Inr f
           \<and> meets_funding f
           \<and> r' = setitem r ''funding_amount_parsed'' (Str (format_funding f))"
  using assms
  by (auto simp: try_body_def attempt_def as_str_Inr Let_def split: sum.splits if_splits)

lemma filter_startups_members:
  "outcome (filter_startups xs) = Inr fs \<Longrightarrow> r' \<in> set fs \<Longrightarrow>
     \<exists>r\<in>set xs. try_body r = Inr (Some r')"
proof (induction xs arbitrary: fs)
  case Nil
  then show ?case by simp
next
  case (Cons x xs)
  then show ?case
    by (auto simp: attempt_def Let_def split: sum.splits exn.splits option.splits)
qed

lemma display_digits:
  assumes "list_all is_digit ds"
  shows "filter (\<lambda>x. x \<noteq> CHR ''$'' \<and> x \<noteq> CHR '','') (group_thousands ds) = ds"
proof -
  from assms have d: "\<forall>c\<in>set ds. c \<noteq> CHR '','' \<and> c \<noteq> CHR ''$''"
    using is_digit_not_special by (auto simp: list_all_iff)
  have "filter (\<lambda>x. x \<noteq> CHR ''$'' \<and> x \<noteq> CHR '','') (group_thousands ds)
        = filter (\<lambda>x. x \<noteq> CHR ''$'') (filter (\<lambda>x. x \<noteq> CHR '','') (group_thousands ds))"
    by (simp add: conj_commute)
  also have "\<dots> = filter (\<lambda>x. x \<noteq> CHR ''$'') (filter (\<lambda>x. x \<noteq> CHR '','') ds)"
    by (simp only: group_thousands_filter)
  also have "\<dots> = ds"
    using d by (simp add: filter_id_conv)
  finally show ?thesis .
qed

lemma float_inf: "float ''inf'' = Inr PosInf"
  by code_simp

lemma digit_val_digit_char: "0 \<le> d \<Longrightarrow> d < 10 \<Longrightarrow> digit_val (digit_char d) = d"
proof -
  assume "0 \<le> d" "d < 10"
  then have "d \<in> {0, 1, 2, 3, 4, 5, 6, 7, 8, 9}" by (simp add: insert_iff) arith
  then show ?thesis
    by (auto simp: digit_val_def digit_char_def)
qed

lemma int_of_digits_snoc: "int_of_digits (ds @ [c]) = 10 * int_of_digits ds + digit_val c"
  by (simp add: int_of_digits_def)

lemma int_of_digits_digits_of: "0 \<le> n \<Longrightarrow> int_of_digits (digits_of n) = n"
proof (induction n rule: digits_of.induct)
  case (1 n)
  show ?case
  proof (cases "n < 10")
    case True
    with 1 show ?thesis
      by (simp add: digits_of.simps [of n] int_of_digits_def digit_val_digit_char)
  next
    case False
    with 1 have "int_of_digits (digits_of (n div 10)) = n div 10" by simp
    moreover have "digit_val (digit_char (n mod 10)) = n mod 10"
      by (rule digit_val_digit_char) simp_all
    ultimately show ?thesis
      using False by (simp add: digits_of.simps [of n] int_of_digits_snoc)
  qed
qed

lemma round_half_even_mono: "100000000 \<le> q \<Longrightarrow> 0 \<le> round_half_even q"
proof -
  assume "100000000 \<le> q"
  then have "0 \<le> \<lfloor>q\<rfloor>" by simp
  then show ?thesis
    by (simp add: round_half_even_def Let_def)
qed

lemma funding_key_displayed:
  assumes "meets_funding f"
  shows "funding_key (setitem r ''funding_amount_parsed'' (Str (format_funding f)))
           = Inr (displayed_value f)"
proof (cases f)
  case (Finite q)
  with assms have q: "100000000 \<le> q" by (simp add: meets_funding_def min_funding_def)
  then have n: "0 \<le> round_half_even q" by (rule round_half_even_mono)
  from q have "\<not> q < 0" by simp
  moreover have "list_all is_digit (digits_of \<bar>round_half_even q\<bar>)"
    by (rule digits_of_digits) simp
  ultimately show ?thesis
    using Finite digits_of_nonempty [of "\<bar>round_half_even q\<bar>"] n
    by (simp add: funding_key_def get_setitem attempt_def format_funding_def replace_remove
        display_digits float_digits int_of_digits_digits_of displayed_value_def)
next
  case PosInf
  then show ?thesis
    by (simp add: funding_key_def get_setitem attempt_def format_funding_def replace_remove
        float_inf displayed_value_def)
next
  case NegInf
  with assms show ?thesis by (simp add: meets_funding_def)
next
  case NaN
  with assms show ?thesis by (simp add: meets_funding_def)
qed

lemma displayed_value_not_NaN: "meets_funding f \<Longrightarrow> displayed_value f \<noteq> NaN"
  by (cases f) (simp_all add: displayed_value_def round_double_not_NaN meets_funding_def)

lemma float_lt_irrefl: "\<not> float_lt a a"
  by (cases a) simp_all

lemma float_lt_asym: "float_lt a b \<Longrightarrow> \<not> float_lt b a"
  by (cases a; cases b) simp_all

lemma float_lt_negtrans:
  "a \<noteq> NaN \<Longrightarrow> b \<noteq> NaN \<Longrightarrow> c \<noteq> NaN \<Longrightarrow> \<not> float_lt a b \<Longrightarrow> \<not> float_lt b c \<Longrightarrow> \<not> float_lt a c"
  by (cases a; cases b; cases c) simp_all

lemma float_ge_iff: "float_ge a b = (a \<noteq> NaN \<and> b \<noteq> NaN \<and> \<not> float_lt a b)"
  by (cases a; cases b) simp_all

lemma set_insert_desc: "set (insert_desc lt x ys) = insert x (set ys)"
  by (induction ys) auto

lemma mset_insert_desc: "mset (insert_desc lt x ys) = add_mset x (mset ys)"
  by (induction ys) auto

lemma mset_foldr_insert_desc: "mset (foldr (insert_desc lt) kxs []) = mset kxs"
  by (induction kxs) (simp_all add: mset_insert_desc)

lemma sorted_insert_desc:
  assumes "sorted_wrt (\<lambda>p q. float_ge (fst p) (fst q)) ys" "fst x \<noteq> NaN"
    "\<forall>y\<in>set ys. fst y \<noteq> NaN"
  shows "sorted_wrt (\<lambda>p q. float_ge (fst p) (fst q)) (insert_desc float_lt x ys)"
  using assms
proof (induction ys)
  case Nil
  then show ?case by simp
next
  case (Cons y ys)
  show ?case
  proof (cases "float_lt (fst x) (fst y)")
    case True
    then have "float_ge (fst y) (fst x)"
      using Cons.prems float_lt_asym by (simp add: float_ge_iff)
    with True Cons show ?thesis
      by (auto simp: set_insert_desc)
  next
    case False
    then have xy: "float_ge (fst x) (fst y)"
      using Cons.prems by (simp add: float_ge_iff)
    have "float_ge (fst x) (fst z)" if "z \<in> set ys" for z
    proof -
      from that Cons.prems have "float_ge (fst y) (fst z)" by simp
      with xy show ?thesis
        using float_lt_negtrans [of "fst x" "fst y" "fst z"] by (simp add: float_ge_iff)
    qed
    with False xy Cons.prems show ?thesis by simp
  qed
qed

lemma sorted_foldr_insert_desc:
  "\<forall>p\<in>set kxs. fst p \<noteq> NaN \<Longrightarrow>
     sorted_wrt (\<lambda>p q. float_ge (fst p) (fst q)) (foldr (insert_desc float_lt) kxs [])"
proof (induction kxs)
  case Nil
  then show ?case by simp
next
  case (Cons a kxs)
  have "set (foldr (insert_desc float_lt) kxs []) = set kxs"
    using mset_foldr_insert_desc [of float_lt kxs] by (metis set_mset_mset)
  with Cons show ?case by (simp add: sorted_insert_desc)
qed

lemma filter_insert_desc:
  "filter (\<lambda>p. fst p = k) (insert_desc float_lt x ys)
     = (if fst x = k then x # filter (\<lambda>p. fst p = k) ys else filter (\<lambda>p. fst p = k) ys)"
  by (induction ys) (auto simp: float_lt_irrefl)

lemma filter_foldr_insert_desc:
  "filter (\<lambda>p. fst p = k) (foldr (insert_desc float_lt) kxs []) = filter (\<lambda>p. fst p = k) kxs"
  by (induction kxs) (simp_all add: filter_insert_desc)

section \<open>One row of the filter\<close>

lemma setitem_setitem: "setitem (setitem d k v) k v' = setitem d k v'"
  by (simp add: setitem_def)

lemma try_body_again:
  assumes "try_body r = Inr (Some r')"
  shows "try_body r' = Inr (Some r')"
proof -
  from try_body_SomeD [OF assms] obtain t f where
    r': "r' = setitem r ''funding_amount_parsed'' (Str (format_funding f))"
    by blast
  from assms show ?thesis
    unfolding r' try_body_def
    by (auto simp: attempt_def as_str_Inr Let_def get_setitem setitem_setitem
        split: sum.splits if_splits)
qed

lemma text_row_get: "text_row r \<Longrightarrow> get r k (Str d) = Str (field r k d)"
proof -
  assume t: "text_row r"
  show ?thesis
  proof (cases "map_of r k")
    case None
    then show ?thesis by (simp add: get_def field_def)
  next
    case (Some v)
    then have "(k, v) \<in> set r" by (rule map_of_SomeD)
    with t have "v \<noteq> PyNone" by (auto simp: text_row_def list_all_iff)
    with Some show ?thesis by (cases v) (simp_all add: get_def field_def)
  qed
qed

lemma float_error: "float s = Inl e \<Longrightarrow> e = ValueError"
  by (auto simp: float_def Let_def split: option.splits)

lemma parse_funding_error: "parse_funding t = Inl e \<Longrightarrow> e = ValueError"
  by (auto simp: parse_funding_def Let_def attempt_def split: if_splits sum.splits dest: float_error)

lemma meets_location_sublist:
  "meets_location l = list_ex (\<lambda>region. sublist region l) target_regions"
  by (simp add: meets_location_def str_in_sublist)

lemma try_body_text:
  assumes "text_row r"
  shows "try_body r =
           (if eligible r then Inr (Some (with_parsed r))
            else case parse_funding (field r ''funding_amount'' ''0'') of
                   Inl _ \<Rightarrow> Inl ValueError | Inr _ \<Rightarrow> Inr None)"
proof (cases "parse_funding (field r ''funding_amount'' ''0'')")
  case (Inl e)
  then have "e = ValueError" by (rule parse_funding_error)
  with Inl show ?thesis
    by (simp add: try_body_def attempt_def text_row_get [OF assms] eligible_def)
next
  case (Inr f)
  then show ?thesis
    by (simp add: try_body_def attempt_def text_row_get [OF assms] eligible_def with_parsed_def
        Let_def meets_funding_def min_funding_def meets_location_sublist meets_status_def
        str_in_sublist not_ipod_def)
qed

lemma filter_startups_text:
  "\<forall>r\<in>set xs. text_row r \<Longrightarrow>
     outcome (filter_startups xs) = Inr (map with_parsed (filter eligible xs))"
proof (induction xs)
  case Nil
  then show ?case by simp
next
  case (Cons x xs)
  then have t: "text_row x" and IH: "outcome (filter_startups xs) = Inr (map with_parsed (filter eligible xs))"
    by simp_all
  show ?case
    by (simp add: try_body_text [OF t] IH Let_def attempt_def split: sum.splits)
qed

lemma update_absent: "map_of al k = None \<Longrightarrow> AList.update k v al = al @ [(k, v)]"
  by (induction al) (auto split: if_splits)

section \<open>The texts that float accepts\<close>

lemma drop_underscores_keeps:
  "drop_underscores prev s = Some d \<Longrightarrow> c \<in> set s \<Longrightarrow> c \<noteq> CHR ''_'' \<Longrightarrow> c \<in> set d"
  by (induction s arbitrary: prev d) (auto split: if_splits)

lemma dropWhile_keeps: "c \<in> set xs \<Longrightarrow> \<not> P c \<Longrightarrow> c \<in> set (dropWhile P xs)"
  by (induction xs) auto

lemma split_sign_chars:
  "c \<in> set s \<Longrightarrow> c \<in> set (snd (split_sign s)) \<or> c = CHR ''+'' \<or> c = CHR ''-''"
  by (cases s) (auto simp: split_sign_def)

lemma parse_exponent_chars:
  assumes "parse_exponent r = Some e" "c \<in> set r"
  shows "is_digit c \<or> c \<in> set ''+-eE''"
proof (cases r)
  case Nil
  with assms show ?thesis by simp
next
  case (Cons x xs)
  with assms have x: "x = CHR ''e'' \<or> x = CHR ''E''"
    and ds: "list_all is_digit (snd (split_sign xs))"
    by (auto simp: parse_exponent_def Let_def split: if_splits prod.splits)
  from assms(2) Cons consider "c = x" | "c \<in> set xs" by auto
  then show ?thesis
  proof cases
    case 1
    with x show ?thesis by auto
  next
    case 2
    from split_sign_chars [OF 2] ds show ?thesis by (auto simp: list_all_iff)
  qed
qed

lemma takeWhile_dropWhile_chars:
  "c \<in> set xs \<Longrightarrow> P c \<or> c \<in> set (dropWhile P xs)"
  by (induction xs) auto

lemma split_point_chars:
  "c \<in> set r \<Longrightarrow> is_digit c \<or> c = CHR ''.'' \<or> c \<in> set (snd (split_point r))"
  using takeWhile_dropWhile_chars [of c _ is_digit]
  by (cases r) (auto simp: split_point_def)

lemma parse_decimal_chars:
  assumes "parse_decimal t = Some v" "c \<in> set t"
  shows "is_digit c \<or> c \<in> set ''+-.eE''"
proof -
  define r1 where "r1 = snd (split_sign t)"
  define r3 where "r3 = snd (split_point (dropWhile is_digit r1))"
  from assms(1) obtain e where e: "parse_exponent r3 = Some e"
    by (auto simp: parse_decimal_def Let_def r1_def r3_def
        split: prod.splits option.splits if_splits)
  have c3: "is_digit c \<or> c \<in> set ''+-eE''" if "c \<in> set r3"
    using parse_exponent_chars [OF e that] .
  from split_sign_chars [OF assms(2)] consider "c \<in> set r1" | "c = CHR ''+'' \<or> c = CHR ''-''"
    by (auto simp: r1_def)
  then show ?thesis
  proof cases
    case 1
    from takeWhile_dropWhile_chars [OF 1, of is_digit] show ?thesis
    proof
      assume "c \<in> set (dropWhile is_digit r1)"
      from split_point_chars [OF this] c3 show ?thesis by (auto simp: r3_def)
    qed simp
  next
    case 2
    then show ?thesis by auto
  qed
qed

lemma parse_inf_or_nan_chars:
  assumes "parse_inf_or_nan t = Some f" "c \<in> set t"
  shows "c = CHR ''+'' \<or> c = CHR ''-'' \<or> lower_char c \<in> set ''infatyn''"
proof -
  from assms(1) have w: "lower (snd (split_sign t)) \<in> {''inf'', ''infinity'', ''nan''}"
    by (auto simp: parse_inf_or_nan_def Let_def split: prod.splits if_splits)
  from split_sign_chars [OF assms(2)] show ?thesis
  proof
    assume "c \<in> set (snd (split_sign t))"
    then have "lower_char c \<in> set (lower (snd (split_sign t)))" by (simp add: lower_def)
    with w show ?thesis by auto
  qed auto
qed

text \<open>The characters of a text that \<open>float\<close> accepts.\<close>

lemma float_chars:
  assumes "float s = Inr v" "c \<in> set s"
  shows "is_digit c \<or> is_space c \<or> c \<in> set ''_+-.eE'' \<or> lower_char c \<in> set ''infatyn''"
proof (cases "c = CHR ''_'' \<or> is_space c")
  case True
  then show ?thesis by auto
next
  case False
  from assms(1) obtain d where d: "drop_underscores NUL s = Some d"
    by (auto simp: float_def split: option.splits)
  define t where "t = rev (dropWhile is_space (rev (dropWhile is_space d)))"
  from drop_underscores_keeps [OF d assms(2)] False have "c \<in> set d" by simp
  with False have "c \<in> set (dropWhile is_space d)" by (simp add: dropWhile_keeps)
  with False have c: "c \<in> set t" by (simp add: t_def dropWhile_keeps)
  from assms(1) d consider w where "parse_decimal t = Some w"
    | f where "parse_inf_or_nan t = Some f"
    by (auto simp: float_def Let_def t_def split: option.splits)
  then show ?thesis
  proof cases
    case 1
    from parse_decimal_chars [OF 1 c] show ?thesis by auto
  next
    case 2
    from parse_inf_or_nan_chars [OF 2 c] show ?thesis by auto
  qed
qed

lemma float_rejects:
  assumes "c \<in> set s" "c \<in> set '',$MmBb''"
  shows "float s = Inl ValueError"
proof (cases "float s")
  case (Inl e)
  then show ?thesis using float_error by blast
next
  case (Inr v)
  from float_chars [OF Inr assms(1)] assms(2) show ?thesis
    by (auto simp: is_digit_def is_space_def lower_char_def)
qed

section \<open>Upper case does not change what a text denotes\<close>

lemma upper_char_digit: "is_digit (upper_char c) = is_digit c"
  by (simp add: upper_char_def is_digit_def)

lemma upper_char_space: "is_space (upper_char c) = is_space c"
  by (simp add: upper_char_def is_space_def)

lemma upper_char_punct:
  "(upper_char c = CHR ''_'') = (c = CHR ''_'')"
  "(upper_char c = CHR ''-'') = (c = CHR ''-'')"
  "(upper_char c = CHR ''+'') = (c = CHR ''+'')"
  "(upper_char c = CHR ''.'') = (c = CHR ''.'')"
  by (simp_all add: upper_char_def)

lemma upper_char_e: "(upper_char c = CHR ''e'' \<or> upper_char c = CHR ''E'') = (c = CHR ''e'' \<or> c = CHR ''E'')"
  by (simp add: upper_char_def)

lemma upper_char_M: "(upper_char c = CHR ''M'') = (c = CHR ''M'' \<or> c = CHR ''m'')"
  by (auto simp add: upper_char_def)

lemma upper_char_B: "(upper_char c = CHR ''B'') = (c = CHR ''B'' \<or> c = CHR ''b'')"
  by (auto simp add: upper_char_def)

lemma upper_char_val: "digit_val (upper_char c) = digit_val c"
  by (simp add: upper_char_def digit_val_def)

lemma lower_upper_char: "lower_char (upper_char c) = lower_char c"
  by (simp add: upper_char_def lower_char_def)

lemma drop_underscores_upper:
  "drop_underscores (upper_char prev) (upper s) = map_option upper (drop_underscores prev s)"
  by (induction s arbitrary: prev)
    (simp_all add: upper_def upper_char_punct upper_char_digit option.map_comp comp_def)

lemma dropWhile_space_upper: "dropWhile is_space (upper s) = upper (dropWhile is_space s)"
  by (simp add: upper_def dropWhile_map comp_def upper_char_space)

lemma takeWhile_digit_upper: "takeWhile is_digit (upper s) = upper (takeWhile is_digit s)"
  by (simp add: upper_def takeWhile_map comp_def upper_char_digit)

lemma dropWhile_digit_upper: "dropWhile is_digit (upper s) = upper (dropWhile is_digit s)"
  by (simp add: upper_def dropWhile_map comp_def upper_char_digit)

lemma split_sign_upper:
  "split_sign (upper s) = (fst (split_sign s), upper (snd (split_sign s)))"
  by (cases s) (simp_all add: split_sign_def upper_def upper_char_punct)

lemma int_of_digits_upper: "int_of_digits (upper ds) = int_of_digits ds"
  by (simp add: int_of_digits_def upper_def foldl_map upper_char_val)

lemma list_all_digit_upper: "list_all is_digit (upper ds) = list_all is_digit ds"
  by (simp add: upper_def list_all_iff upper_char_digit)

lemma upper_Nil_iff: "(upper s = []) = (s = [])"
  by (simp add: upper_def)

lemma length_upper: "length (upper s) = length s"
  by (simp add: upper_def)

lemma upper_append: "upper (a @ b) = upper a @ upper b"
  by (simp add: upper_def)

lemma parse_exponent_upper: "parse_exponent (upper r) = parse_exponent r"
proof (cases r)
  case Nil
  then show ?thesis by (simp add: upper_def)
next
  case (Cons c cs)
  have "upper (c # cs) = upper_char c # upper cs" by (simp add: upper_def)
  then show ?thesis
    using upper_char_e [of c]
    by (simp add: Cons parse_exponent_def split_sign_upper Let_def split_beta
        list_all_digit_upper int_of_digits_upper upper_Nil_iff)
qed

lemma upper_Nil: "upper [] = []"
  by (simp add: upper_def)

lemma upper_Cons: "upper (c # cs) = upper_char c # upper cs"
  by (simp add: upper_def)

lemma split_point_upper:
  "split_point (upper r) = (upper (fst (split_point r)), upper (snd (split_point r)))"
proof (cases r)
  case Nil
  then show ?thesis by (simp add: split_point_def upper_Nil)
next
  case (Cons c cs)
  then show ?thesis
    by (simp add: split_point_def upper_char_punct takeWhile_digit_upper
        dropWhile_digit_upper upper_Cons upper_Nil)
qed

lemma parse_decimal_upper: "parse_decimal (upper t) = parse_decimal t"
  by (simp only: parse_decimal_def split_sign_upper split_beta Let_def fst_conv snd_conv
      takeWhile_digit_upper dropWhile_digit_upper split_point_upper upper_Nil_iff
      parse_exponent_upper length_upper int_of_digits_upper flip: upper_append)

lemma parse_inf_or_nan_upper: "parse_inf_or_nan (upper t) = parse_inf_or_nan t"
proof -
  have "lower (upper r) = lower r" for r
    by (simp add: lower_def upper_def lower_upper_char)
  then show ?thesis
    by (simp add: parse_inf_or_nan_def split_sign_upper split_beta)
qed

lemma float_upper: "float (upper s) = float s"
proof -
  have "upper_char NUL = NUL" by (simp add: NUL_def upper_char_def)
  then have u: "drop_underscores NUL (upper s) = map_option upper (drop_underscores NUL s)"
    using drop_underscores_upper [of NUL s] by simp
  have t: "rev (dropWhile is_space (rev (dropWhile is_space (upper d))))
           = upper (rev (dropWhile is_space (rev (dropWhile is_space d))))" for d
    by (simp add: dropWhile_space_upper upper_def rev_map dropWhile_map comp_def upper_char_space)
  show ?thesis
    by (simp add: float_def u t parse_decimal_upper parse_inf_or_nan_upper
        split: option.splits)
qed

lemma remove_M_upper:
  "filter (\<lambda>c. c \<noteq> CHR ''M'') (upper s) = upper (filter (\<lambda>c. c \<noteq> CHR ''M'' \<and> c \<noteq> CHR ''m'') s)"
  by (simp add: upper_def filter_map comp_def upper_char_M)

lemma remove_B_upper:
  "filter (\<lambda>c. c \<noteq> CHR ''B'') (upper s) = upper (filter (\<lambda>c. c \<noteq> CHR ''B'' \<and> c \<noteq> CHR ''b'') s)"
  by (simp add: upper_def filter_map comp_def upper_char_B)

lemma in_upper_M: "(CHR ''M'' \<in> set (upper s)) = (CHR ''M'' \<in> set s \<or> CHR ''m'' \<in> set s)"
proof -
  have "(CHR ''M'' \<in> set (upper s)) = (\<exists>c\<in>set s. upper_char c = CHR ''M'')"
    by (force simp: upper_def image_iff)
  then show ?thesis
    by (auto simp: upper_char_M)
qed 

lemma in_upper_B: "(CHR ''B'' \<in> set (upper s)) = (CHR ''B'' \<in> set s \<or> CHR ''b'' \<in> set s)"
proof -
  have "(CHR ''B'' \<in> set (upper s)) = (\<exists>c\<in>set s. upper_char c = CHR ''B'')"
    by (force simp: upper_def image_iff)
  then show ?thesis
    by (auto simp: upper_char_B)
qed

section \<open>The status criterion\<close>

lemma status_empty: "meets_status (lower [])"
  by code_simp

lemma status_active_hiring: "meets_status (lower ''Active, hiring'')"
  by code_simp

lemma status_inactive: "meets_status (lower ''inactive'')"
  by code_simp

text \<open>
  Claim C6. The status criterion is containment of the block \<open>active\<close> in the
  case-folded status, or an empty status: the empty status and \<open>Active, hiring\<close> meet
  it, and \<open>inactive\<close> meets it too, since it contains \<open>active\<close>.
\<close>

theorem status_literal_substring:
  "meets_status (lower st) = ((\<exists>before after. lower st = before @ ''active'' @ after) \<or> st = [])
   \<and> meets_status (lower [])
   \<and> meets_status (lower ''Active, hiring'')
   \<and> meets_status (lower ''inactive'')"
proof -
  have "meets_status (lower st) = ((\<exists>before after. lower st = before @ ''active'' @ after) \<or> st = [])"
    by (simp add: meets_status_def str_in_sublist sublist_def lower_Nil_iff)
  with status_empty status_active_hiring status_inactive show ?thesis
    by blast
qed

section \<open>The export\<close>

text \<open>
  Claim C7. For a non-empty list of eligible records whose file can be written,
  \<^verbatim>\<open>export_to_csv\<close> returns \<^verbatim>\<open>True\<close> and writes the header and then one row for each
  record, in order: as many data rows as records.
\<close>

theorem export_one_row_per_record:
  assumes "filtered_startups \<noteq> []"
  shows "\<exists>rows. export_to_csv filtered_startups True = (True, Some (fieldnames # rows))
           \<and> rows = map csv_row filtered_startups
           \<and> length rows = length filtered_startups"
  using assms by (simp add: export_to_csv_def)

theorem export_one_row_per_record_witness:
  "[[(''company_name'', Str ''A'')]] \<noteq> ([] :: startup list)
   \<and> export_to_csv [[(''company_name'', Str ''A'')]] True
       = (True, Some [fieldnames, [''A'', [], [], [], [], [], [], [], []]])"
proof -
  have ne: "[[(''company_name'', Str ''A'')]] \<noteq> ([] :: startup list)"
    by simp
  have row: "csv_row [(''company_name'', Str ''A'')] = [''A'', [], [], [], [], [], [], [], []]"
    by code_simp
  from export_one_row_per_record [OF ne] ne row show ?thesis
    by simp
qed

section \<open>The eligibility filter\<close>

lemma threshold_met:
  "eligible [(''funding_amount'', Str ''100000000''), (''location'', Str ''USA'')]"
  by code_simp

lemma threshold_missed:
  "\<not> eligible [(''funding_amount'', Str ''99000000''), (''location'', Str ''USA'')]"
  by code_simp

text \<open>
  Claim C1. For rows of texts, \<^verbatim>\<open>filter_startups\<close> returns, in input order, exactly the
  rows that are \<open>eligible\<close> (the funding text parses, the amount is at least
  100,000,000, and the location, status and IPO predicates hold), each with its display
  value added. The threshold is inclusive: a funding of 100000000 passes, 99000000 fails.
\<close>

theorem filter_returns_eligible:
  assumes "\<forall>r\<in>set startups. text_row r"
  shows "outcome (filter_startups startups) = Inr (map with_parsed (filter eligible startups))
    \<and> eligible [(''funding_amount'', Str ''100000000''), (''location'', Str ''USA'')]
    \<and> \<not> eligible [(''funding_amount'', Str ''99000000''), (''location'', Str ''USA'')]"
  using filter_startups_text [OF assms] threshold_met threshold_missed by simp

theorem filter_returns_eligible_witness:
  "text_row [(''funding_amount'', Str ''100000000''), (''location'', Str ''USA'')]
   \<and> text_row [(''funding_amount'', Str ''99000000''), (''location'', Str ''USA'')]
   \<and> outcome (filter_startups
         [[(''funding_amount'', Str ''100000000''), (''location'', Str ''USA'')],
          [(''funding_amount'', Str ''99000000''), (''location'', Str ''USA'')]])
       = Inr [[(''funding_amount'', Str ''100000000''), (''location'', Str ''USA''),
               (''funding_amount_parsed'', Str ''$100,000,000'')]]"
proof -
  let ?a = "[(''funding_amount'', Str ''100000000''), (''location'', Str ''USA'')]"
  let ?b = "[(''funding_amount'', Str ''99000000''), (''location'', Str ''USA'')]"
  have a: "text_row ?a" and b: "text_row ?b"
    by (simp_all add: text_row_def)
  then have h: "\<forall>r\<in>set [?a, ?b]. text_row r"
    by simp
  have w: "with_parsed ?a = [(''funding_amount'', Str ''100000000''), (''location'', Str ''USA''),
               (''funding_amount_parsed'', Str ''$100,000,000'')]"
    by code_simp
  from filter_returns_eligible [OF h] a b w show ?thesis
    by simp
qed

section \<open>The funding normalizer\<close>

lemma parse_funding_words:
  "parse_funding t =
     (let cleaned = filter (\<lambda>c. c \<noteq> CHR '','' \<and> c \<noteq> CHR ''$'') t
      in if CHR ''M'' \<in> set cleaned \<or> CHR ''m'' \<in> set cleaned
         then (case float (filter (\<lambda>c. c \<noteq> CHR ''M'' \<and> c \<noteq> CHR ''m'') cleaned) of
                 Inl e \<Rightarrow> Inl e
               | Inr f \<Rightarrow> Inr (float_mul f (Finite 1000000)))
         else if CHR ''B'' \<in> set cleaned \<or> CHR ''b'' \<in> set cleaned
         then (case float (filter (\<lambda>c. c \<noteq> CHR ''B'' \<and> c \<noteq> CHR ''b'') cleaned) of
                 Inl e \<Rightarrow> Inl e
               | Inr f \<Rightarrow> Inr (float_mul f (Finite 1000000000)))
         else float cleaned)"
  unfolding parse_funding_def Let_def str_in_char in_upper_M in_upper_B
    replace_remove remove_M_upper remove_B_upper float_upper attempt_def
  by (simp only: filter_filter)

lemma parse_funding_plain:
  assumes "float t = Inr v"
  shows "parse_funding t = Inr v"
proof -
  have no: "c \<notin> set t" if "c \<in> set '',$MmBb''" for c
  proof
    assume "c \<in> set t"
    from float_rejects [OF this that] assms show False by simp
  qed
  then have "filter (\<lambda>c. c \<noteq> CHR '','' \<and> c \<noteq> CHR ''$'') t = t"
    by (auto simp: filter_id_conv)
  moreover from no have "CHR ''M'' \<notin> set t" "CHR ''m'' \<notin> set t" "CHR ''B'' \<notin> set t" "CHR ''b'' \<notin> set t"
    by simp_all
  ultimately show ?thesis
    using assms by (simp add: parse_funding_words)
qed

lemma normalizer_plain: "parse_funding ''150000000'' = Inr (Finite 150000000)"
  by code_simp

lemma normalizer_million: "parse_funding ''150M'' = Inr (Finite 150000000)"
  by code_simp

lemma normalizer_billion: "parse_funding ''$2.3B'' = Inr (Finite 2300000000)"
  by code_simp

text \<open>
  Claim C2. The normalizer drops the commas and dollar signs; when the cleaned text has
  an M (in either case) it drops that letter, parses the rest as a float and multiplies
  by 1,000,000; else, when it has a B, the same with 1,000,000,000; else it parses the
  cleaned text. So 150000000 and 150M give 150,000,000 and $2.3B gives 2,300,000,000,
  and a text that is itself a float literal gives the float it denotes.
\<close>

theorem normalizer_algorithm:
  "parse_funding t =
     (let cleaned = filter (\<lambda>c. c \<noteq> CHR '','' \<and> c \<noteq> CHR ''$'') t
      in if CHR ''M'' \<in> set cleaned \<or> CHR ''m'' \<in> set cleaned
         then (case float (filter (\<lambda>c. c \<noteq> CHR ''M'' \<and> c \<noteq> CHR ''m'') cleaned) of
                 Inl e \<Rightarrow> Inl e
               | Inr f \<Rightarrow> Inr (float_mul f (Finite 1000000)))
         else if CHR ''B'' \<in> set cleaned \<or> CHR ''b'' \<in> set cleaned
         then (case float (filter (\<lambda>c. c \<noteq> CHR ''B'' \<and> c \<noteq> CHR ''b'') cleaned) of
                 Inl e \<Rightarrow> Inl e
               | Inr f \<Rightarrow> Inr (float_mul f (Finite 1000000000)))
         else float cleaned)
   \<and> parse_funding ''150000000'' = Inr (Finite 150000000)
   \<and> parse_funding ''150M'' = Inr (Finite 150000000)
   \<and> parse_funding ''$2.3B'' = Inr (Finite 2300000000)
   \<and> (\<forall>v. float t = Inr v \<longrightarrow> parse_funding t = Inr v)"
  using parse_funding_words [of t] parse_funding_plain [of t]
    normalizer_plain normalizer_million normalizer_billion
  by blast

theorem normalizer_algorithm_witness:
  "float ''1.5e8'' = Inr (Finite 150000000) \<and> parse_funding ''1.5e8'' = Inr (Finite 150000000)"
proof -
  have f: "float ''1.5e8'' = Inr (Finite 150000000)"
    by code_simp
  from normalizer_algorithm [of "''1.5e8''"] f show ?thesis
    by blast
qed

text \<open>
  Claim C4, as stated, fails: the text 1.5MB holds both letters and the normalizer gives
  no amount for it (1.5M alone gives 1,500,000).
\<close>

theorem both_suffixes_counterexample:
  "CHR ''M'' \<in> set ''1.5MB'' \<and> CHR ''B'' \<in> set ''1.5MB''
   \<and> parse_funding ''1.5MB'' = Inl ValueError
   \<and> parse_funding ''1.5M'' = Inr (Finite 1500000)"
  by code_simp

text \<open>
  Claim C4, amended. For a funding text that holds an M and a B (in either case), the M
  branch is taken: the result is what the parse of the text without its commas, dollar
  signs and M's gives, times 1,000,000. That text still holds the B, which no float
  literal has, so the parse fails and the normalizer gives a parse failure.
\<close>

theorem both_suffixes_fail:
  assumes "CHR ''M'' \<in> set t \<or> CHR ''m'' \<in> set t" "CHR ''B'' \<in> set t \<or> CHR ''b'' \<in> set t"
  shows "parse_funding t =
           (case float (filter (\<lambda>c. c \<noteq> CHR ''M'' \<and> c \<noteq> CHR ''m'')
                          (filter (\<lambda>c. c \<noteq> CHR '','' \<and> c \<noteq> CHR ''$'') t)) of
              Inl e \<Rightarrow> Inl e
            | Inr f \<Rightarrow> Inr (float_mul f (Finite 1000000)))
         \<and> float (filter (\<lambda>c. c \<noteq> CHR ''M'' \<and> c \<noteq> CHR ''m'')
                     (filter (\<lambda>c. c \<noteq> CHR '','' \<and> c \<noteq> CHR ''$'') t)) = Inl ValueError
         \<and> parse_funding t = Inl ValueError"
proof -
  let ?rest = "filter (\<lambda>c. c \<noteq> CHR ''M'' \<and> c \<noteq> CHR ''m'')
                 (filter (\<lambda>c. c \<noteq> CHR '','' \<and> c \<noteq> CHR ''$'') t)"
  from assms(2) obtain c where c: "c \<in> set ?rest" "c \<in> set '',$MmBb''"
    by auto
  then have "float ?rest = Inl ValueError"
    by (rule float_rejects)
  with assms(1) show ?thesis
    by (simp add: parse_funding_words)
qed

theorem both_suffixes_fail_witness:
  "CHR ''M'' \<in> set ''1.5MB'' \<and> CHR ''B'' \<in> set ''1.5MB''
   \<and> float ''1.5B'' = Inl ValueError \<and> parse_funding ''1.5MB'' = Inl ValueError"
proof -
  have m: "CHR ''M'' \<in> set ''1.5MB'' \<or> CHR ''m'' \<in> set ''1.5MB''"
    and b: "CHR ''B'' \<in> set ''1.5MB'' \<or> CHR ''b'' \<in> set ''1.5MB''"
    by simp_all
  from both_suffixes_fail [OF m b] show ?thesis
    by simp
qed

section \<open>The ranking\<close>

lemma with_keys_ok:
  "\<forall>r\<in>set fs. \<exists>k. funding_key r = Inr k \<Longrightarrow>
     with_keys fs = Inr (map (\<lambda>r. (key_of r, r)) fs)"
  by (induction fs) (auto simp: attempt_def key_of_def)

lemma filtered_keys_displayed:
  assumes "outcome (filter_startups xs) = Inr fs" "r' \<in> set fs"
  shows "\<exists>r\<in>set xs. \<exists>amount. parse_funding (field r ''funding_amount'' ''0'') = Inr amount
           \<and> meets_funding amount \<and> funding_key r' = Inr (displayed_value amount)"
proof -
  from filter_startups_members [OF assms] obtain r where
    r: "r \<in> set xs" "try_body r = Inr (Some r')"
    by blast
  from try_body_SomeD [OF r(2)] obtain t f where
    t: "get r ''funding_amount'' (Str ''0'') = Str t" "parse_funding t = Inr f"
    and f: "meets_funding f" "r' = setitem r ''funding_amount_parsed'' (Str (format_funding f))"
    by blast
  from t have "parse_funding (field r ''funding_amount'' ''0'') = Inr f"
    by (simp add: field_def)
  with r(1) f show ?thesis
    using funding_key_displayed by blast
qed

lemma sorted_startups_stable:
  assumes "\<forall>r\<in>set fs. \<exists>k. funding_key r = Inr k \<and> k \<noteq> NaN"
  shows "\<exists>ranked. sorted_startups fs = Inr ranked
           \<and> mset ranked = mset fs
           \<and> sorted_wrt (\<lambda>a b. float_ge (key_of a) (key_of b)) ranked
           \<and> (\<forall>k. filter (\<lambda>r. key_of r = k) ranked = filter (\<lambda>r. key_of r = k) fs)"
proof -
  define kxs where "kxs = map (\<lambda>r. (key_of r, r)) fs"
  define srt where "srt = foldr (insert_desc float_lt) kxs []"
  from assms have "\<forall>r\<in>set fs. \<exists>k. funding_key r = Inr k" by blast
  then have "with_keys fs = Inr kxs"
    unfolding kxs_def by (rule with_keys_ok)
  then have s: "sorted_startups fs = Inr (map snd srt)"
    by (simp add: sorted_startups_def attempt_def sorted_reverse_def srt_def)
  have m: "mset srt = mset kxs"
    unfolding srt_def by (rule mset_foldr_insert_desc)
  then have set: "set srt = set kxs"
    by (metis set_mset_mset)
  have pair: "fst p = key_of (snd p)" if "p \<in> set srt" for p
    using that set by (auto simp: kxs_def)
  have "mset (map snd srt) = mset (map snd kxs)"
    using m by (metis mset_map)
  then have perm: "mset (map snd srt) = mset fs"
    by (simp add: kxs_def comp_def)
  have "\<forall>p\<in>set kxs. fst p \<noteq> NaN"
    using assms by (auto simp: kxs_def key_of_def)
  then have "sorted_wrt (\<lambda>p q. float_ge (fst p) (fst q)) srt"
    unfolding srt_def by (rule sorted_foldr_insert_desc)
  then have "sorted_wrt (\<lambda>p q. float_ge (key_of (snd p)) (key_of (snd q))) srt"
    by (rule sorted_wrt_mono_rel [rotated]) (simp add: pair)
  then have sorted: "sorted_wrt (\<lambda>a b. float_ge (key_of a) (key_of b)) (map snd srt)"
    by (simp add: sorted_wrt_map)
  have stable: "filter (\<lambda>r. key_of r = k) (map snd srt) = filter (\<lambda>r. key_of r = k) fs" for k
  proof -
    have "filter (\<lambda>r. key_of r = k) (map snd srt) = map snd (filter (\<lambda>p. key_of (snd p) = k) srt)"
      by (simp add: filter_map comp_def)
    also have "filter (\<lambda>p. key_of (snd p) = k) srt = filter (\<lambda>p. fst p = k) srt"
      by (rule filter_cong) (simp_all add: pair)
    also have "\<dots> = filter (\<lambda>p. fst p = k) kxs"
      unfolding srt_def by (rule filter_foldr_insert_desc)
    also have "map snd \<dots> = filter (\<lambda>r. key_of r = k) fs"
      by (simp add: kxs_def filter_map comp_def)
    finally show ?thesis .
  qed
  from s perm sorted stable show ?thesis
    by blast
qed

text \<open>
  Claim C3, as stated, fails. Two rows with the fundings 100000000.25 and 100000000.5,
  in this order, both pass the filter; both are printed as $100,000,000, so their sort
  keys are equal and the ranking keeps the input order: the row with the strictly
  smaller funding stands before the other.
\<close>

theorem ranking_counterexample:
  "outcome (filter_startups
      [[(''funding_amount'', Str ''100000000.25''), (''location'', Str ''USA'')],
       [(''funding_amount'', Str ''100000000.5''), (''location'', Str ''USA'')]])
     = Inr [[(''funding_amount'', Str ''100000000.25''), (''location'', Str ''USA''),
             (''funding_amount_parsed'', Str ''$100,000,000'')],
            [(''funding_amount'', Str ''100000000.5''), (''location'', Str ''USA''),
             (''funding_amount_parsed'', Str ''$100,000,000'')]]
   \<and> sorted_startups
        [[(''funding_amount'', Str ''100000000.25''), (''location'', Str ''USA''),
          (''funding_amount_parsed'', Str ''$100,000,000'')],
         [(''funding_amount'', Str ''100000000.5''), (''location'', Str ''USA''),
          (''funding_amount_parsed'', Str ''$100,000,000'')]]
     = Inr [[(''funding_amount'', Str ''100000000.25''), (''location'', Str ''USA''),
             (''funding_amount_parsed'', Str ''$100,000,000'')],
            [(''funding_amount'', Str ''100000000.5''), (''location'', Str ''USA''),
             (''funding_amount_parsed'', Str ''$100,000,000'')]]
   \<and> parse_funding ''100000000.25'' = Inr (Finite (400000001 / 4))
   \<and> parse_funding ''100000000.5'' = Inr (Finite (200000001 / 2))
   \<and> float_lt (Finite (400000001 / 4)) (Finite (200000001 / 2))"
  by code_simp

text \<open>
  Claim C3, amended. The ranking of the rows that the filter returned is a stable
  descending sort by the sort key of line 137, and that key is the displayed value of
  the row's funding (the funding rounded to a whole number), not the funding itself:
  the ranking has the same rows, no row stands before a row with a strictly larger key,
  and rows with equal keys keep their input order.
\<close>

theorem ranking_stable_by_display_value:
  assumes "outcome (filter_startups startups) = Inr filtered"
  shows "(\<forall>r'\<in>set filtered. \<exists>r\<in>set startups. \<exists>amount.
            parse_funding (field r ''funding_amount'' ''0'') = Inr amount
            \<and> funding_key r' = Inr (displayed_value amount))
         \<and> (\<exists>ranked. sorted_startups filtered = Inr ranked
              \<and> mset ranked = mset filtered
              \<and> sorted_wrt (\<lambda>a b. float_ge (key_of a) (key_of b)) ranked
              \<and> (\<forall>k. filter (\<lambda>r. key_of r = k) ranked
                         = filter (\<lambda>r. key_of r = k) filtered))"
proof -
  have keys: "\<exists>r\<in>set startups. \<exists>amount.
            parse_funding (field r ''funding_amount'' ''0'') = Inr amount
            \<and> meets_funding amount \<and> funding_key r' = Inr (displayed_value amount)"
    if "r' \<in> set filtered" for r'
    using assms that by (rule filtered_keys_displayed)
  then have "\<forall>r'\<in>set filtered. \<exists>k. funding_key r' = Inr k \<and> k \<noteq> NaN"
    using displayed_value_not_NaN by blast
  from sorted_startups_stable [OF this] keys show ?thesis
    by blast
qed

theorem ranking_stable_by_display_value_witness:
  "outcome (filter_startups
      [[(''funding_amount'', Str ''150M''), (''location'', Str ''USA'')],
       [(''funding_amount'', Str ''2B''), (''location'', Str ''UK'')]])
     = Inr [[(''funding_amount'', Str ''150M''), (''location'', Str ''USA''),
             (''funding_amount_parsed'', Str ''$150,000,000'')],
            [(''funding_amount'', Str ''2B''), (''location'', Str ''UK''),
             (''funding_amount_parsed'', Str ''$2,000,000,000'')]]
   \<and> (\<exists>ranked. sorted_startups
          [[(''funding_amount'', Str ''150M''), (''location'', Str ''USA''),
            (''funding_amount_parsed'', Str ''$150,000,000'')],
           [(''funding_amount'', Str ''2B''), (''location'', Str ''UK''),
            (''funding_amount_parsed'', Str ''$2,000,000,000'')]] = Inr ranked
        \<and> sorted_wrt (\<lambda>a b. float_ge (key_of a) (key_of b)) ranked)"
proof -
  have h: "outcome (filter_startups
      [[(''funding_amount'', Str ''150M''), (''location'', Str ''USA'')],
       [(''funding_amount'', Str ''2B''), (''location'', Str ''UK'')]])
     = Inr [[(''funding_amount'', Str ''150M''), (''location'', Str ''USA''),
             (''funding_amount_parsed'', Str ''$150,000,000'')],
            [(''funding_amount'', Str ''2B''), (''location'', Str ''UK''),
             (''funding_amount_parsed'', Str ''$2,000,000,000'')]]"
    by code_simp
  from ranking_stable_by_display_value [OF h] h show ?thesis
    by blast
qed

section \<open>Rows that are skipped, runs that end early, runs repeated\<close>

text \<open>
  A row whose funding text does not parse is left out of the list returned, a warning
  naming its company is printed, and the rows after it are processed as they would be
  without it.
\<close>

theorem unparsable_row_skipped:
  assumes "get r ''funding_amount'' (Str ''0'') = Str t" "parse_funding t = Inl e"
  shows "filter_startups (r # rest) =
           \<lparr>store = r # store (filter_startups rest),
            printed = warning r # printed (filter_startups rest),
            outcome = outcome (filter_startups rest)\<rparr>"
proof -
  from assms(2) have "e = ValueError" by (rule parse_funding_error)
  with assms have "try_body r = Inl ValueError"
    by (simp add: try_body_def attempt_def)
  then show ?thesis by (simp add: Let_def)
qed

lemma funding_abc: "parse_funding ''abc'' = Inl ValueError"
  by code_simp

theorem unparsable_row_skipped_witness:
  "get [(''company_name'', Str ''Acme''), (''funding_amount'', Str ''abc'')]
       ''funding_amount'' (Str ''0'') = Str ''abc''
   \<and> parse_funding ''abc'' = Inl ValueError
   \<and> filter_startups [[(''company_name'', Str ''Acme''), (''funding_amount'', Str ''abc'')]]
      = \<lparr>store = [[(''company_name'', Str ''Acme''), (''funding_amount'', Str ''abc'')]],
         printed = [SkippingRow ''Acme''], outcome = Inr []\<rparr>"
proof -
  have g: "get [(''company_name'', Str ''Acme''), (''funding_amount'', Str ''abc'')]
       ''funding_amount'' (Str ''0'') = Str ''abc''"
    by (simp add: get_def)
  have w: "warning [(''company_name'', Str ''Acme''), (''funding_amount'', Str ''abc'')]
           = SkippingRow ''Acme''"
    by (simp add: warning_def get_def)
  from unparsable_row_skipped [OF g funding_abc, of "[]"] g funding_abc w show ?thesis
    by simp
qed

text \<open>
  Claim C5 holds of a funding text that does not parse, but not of every problem of one
  row. A row shorter than the header has the cell \<^verbatim>\<open>None\<close> for its missing columns;
  here the location is missing. The string method called on it raises
  \<^verbatim>\<open>AttributeError\<close>, which the handler (for \<^verbatim>\<open>ValueError\<close> and \<^verbatim>\<open>TypeError\<close>) does not
  catch: the call ends with the exception, and the eligible row after it is never
  looked at.
\<close>

theorem short_row_aborts:
  "filter_startups
     [[(''company_name'', Str ''Acme''), (''funding_amount'', Str ''150M''),
       (''location'', PyNone), (''status'', PyNone), (''ipo_status'', PyNone)],
      [(''company_name'', Str ''Euro Tech GmbH''), (''funding_amount'', Str ''200M''),
       (''location'', Str ''Berlin, Germany''), (''status'', Str ''active''),
       (''ipo_status'', Str ''private'')]]
   = \<lparr>store =
        [[(''company_name'', Str ''Acme''), (''funding_amount'', Str ''150M''),
          (''location'', PyNone), (''status'', PyNone), (''ipo_status'', PyNone)],
         [(''company_name'', Str ''Euro Tech GmbH''), (''funding_amount'', Str ''200M''),
          (''location'', Str ''Berlin, Germany''), (''status'', Str ''active''),
          (''ipo_status'', Str ''private'')]],
      printed = [], outcome = Inl AttributeError\<rparr>"
  by code_simp

text \<open>
  Claim C9. A run of the filter is a function of the rows, and it is idempotent on the
  tracker's state: run again on the rows as the first run left them (the accepted rows
  carry their display value), the filter changes no row further, prints the same
  warnings and returns the same list, or ends with the same exception. The tally and
  the ranking are functions of that list.
\<close>

theorem filter_rerun_identical:
  "filter_startups (store (filter_startups startups)) = filter_startups startups"
proof (induction startups)
  case Nil
  then show ?case by simp
next
  case (Cons x startups)
  show ?case
  proof (cases "try_body x")
    case (Inl e)
    with Cons show ?thesis by (cases e) (simp_all add: Let_def)
  next
    case (Inr o')
    show ?thesis
    proof (cases o')
      case None
      with Inr Cons show ?thesis by (simp add: Let_def)
    next
      case (Some x')
      with Inr have "try_body x' = Inr (Some x')" by (simp add: try_body_again)
      with Inr Some Cons show ?thesis by (simp add: Let_def)
    qed
  qed
qed

lemma parse_zero: "parse_funding ''0'' = Inr (Finite 0)"
  by code_simp

text \<open>
  Claim C10. A row of texts with no field \<^verbatim>\<open>funding_amount\<close> gets the default text 0,
  which parses to the funding 0 and fails the threshold: the row is not accepted, no
  exception is raised for it and no warning is printed.
\<close>

theorem missing_funding_is_zero:
  assumes "map_of r ''funding_amount'' = None" "text_row r"
  shows "get r ''funding_amount'' (Str ''0'') = Str ''0''
         \<and> parse_funding ''0'' = Inr (Finite 0)
         \<and> \<not> meets_funding (Finite 0)
         \<and> try_body r = Inr None
         \<and> filter_startups (r # rest) =
             \<lparr>store = r # store (filter_startups rest),
              printed = printed (filter_startups rest),
              outcome = outcome (filter_startups rest)\<rparr>"
proof -
  from assms(1) have g: "get r ''funding_amount'' (Str ''0'') = Str ''0''"
    by (simp add: get_def)
  have m: "\<not> meets_funding (Finite 0)"
    by (simp add: meets_funding_def min_funding_def)
  from g have "field r ''funding_amount'' ''0'' = ''0''"
    by (simp add: field_def)
  then have "\<not> eligible r"
    using m by (simp add: eligible_def parse_zero meets_funding_def min_funding_def)
  then have t: "try_body r = Inr None"
    using \<open>field r ''funding_amount'' ''0'' = ''0''\<close>
    by (simp add: try_body_text [OF assms(2)] parse_zero)
  then have "filter_startups (r # rest) =
             \<lparr>store = r # store (filter_startups rest),
              printed = printed (filter_startups rest),
              outcome = outcome (filter_startups rest)\<rparr>"
    by (simp add: Let_def)
  with g m t parse_zero show ?thesis
    by simp
qed

theorem missing_funding_is_zero_witness:
  "map_of [(''company_name'', Str ''Acme''), (''location'', Str ''USA'')] ''funding_amount'' = None
   \<and> text_row [(''company_name'', Str ''Acme''), (''location'', Str ''USA'')]
   \<and> filter_startups [[(''company_name'', Str ''Acme''), (''location'', Str ''USA'')]]
      = \<lparr>store = [[(''company_name'', Str ''Acme''), (''location'', Str ''USA'')]],
         printed = [], outcome = Inr []\<rparr>"
proof -
  have a: "map_of [(''company_name'', Str ''Acme''), (''location'', Str ''USA'')] ''funding_amount'' = None"
    by simp
  have b: "text_row [(''company_name'', Str ''Acme''), (''location'', Str ''USA'')]"
    by (simp add: text_row_def)
  from missing_funding_is_zero [OF a b, of "[]"] a b show ?thesis
    by simp
qed

section \<open>What the filter changes in a row\<close>

lemma setitem_absent: "map_of r k = None \<Longrightarrow> setitem r k v = r @ [(k, v)]"
  by (simp add: setitem_def update_absent)

lemma sorted_startups_mset:
  assumes "sorted_startups fs = Inr ranked"
  shows "mset ranked = mset fs"
proof -
  have w: "with_keys xs = Inr kxs \<Longrightarrow> map snd kxs = xs" for xs kxs
    by (induction xs arbitrary: kxs) (auto simp: attempt_def split: sum.splits)
  from assms obtain kxs where k: "with_keys fs = Inr kxs"
    and r: "ranked = map snd (foldr (insert_desc float_lt) kxs [])"
    by (auto simp: sorted_startups_def attempt_def sorted_reverse_def split: sum.splits)
  have "mset ranked = mset (map snd kxs)"
    unfolding r using mset_foldr_insert_desc [of float_lt kxs] by (metis mset_map)
  with w [OF k] show ?thesis by simp
qed

text \<open>
  Claim C8, as stated, fails for a row that already has a field
  \<^verbatim>\<open>funding_amount_parsed\<close>: the filter overwrites it, so one of the row's own fields
  changes and no field is added.
\<close>

theorem overwritten_field_counterexample:
  "outcome (filter_startups
      [[(''funding_amount'', Str ''150M''), (''location'', Str ''USA''),
        (''funding_amount_parsed'', Str ''unknown'')]])
     = Inr [[(''funding_amount'', Str ''150M''), (''location'', Str ''USA''),
             (''funding_amount_parsed'', Str ''$150,000,000'')]]
   \<and> get [(''funding_amount'', Str ''150M''), (''location'', Str ''USA''),
           (''funding_amount_parsed'', Str ''unknown'')]
          ''funding_amount_parsed'' (Str []) = Str ''unknown''"
  by code_simp

text \<open>
  Claim C8, amended. Every row that the filter returns is a row of the input with the
  field \<^verbatim>\<open>funding_amount_parsed\<close> set to the display text of its funding: every other
  field is as it was, and for a row that had no such field the row is the raw row with
  this one field added at the end. The ranking returns the same rows, none changed, and
  the summary shows only rows of them.
\<close>

theorem eligible_record_frame:
  assumes "outcome (filter_startups startups) = Inr filtered" "r' \<in> set filtered"
  shows "\<exists>r amount. r \<in> set startups
           \<and> parse_funding (field r ''funding_amount'' ''0'') = Inr amount
           \<and> r' = setitem r ''funding_amount_parsed'' (Str (format_funding amount))
           \<and> (\<forall>k d. k \<noteq> ''funding_amount_parsed'' \<longrightarrow> get r' k d = get r k d)
           \<and> (\<forall>d. get r' ''funding_amount_parsed'' d = Str (format_funding amount))
           \<and> (map_of r ''funding_amount_parsed'' = None \<longrightarrow>
                r' = r @ [(''funding_amount_parsed'', Str (format_funding amount))])
           \<and> (\<forall>ranked. sorted_startups filtered = Inr ranked \<longrightarrow> mset ranked = mset filtered)
           \<and> (\<forall>s. display_summary filtered = Inr (Some s) \<longrightarrow> set (top_funded s) \<subseteq> set filtered)"
proof -
  from filter_startups_members [OF assms] obtain r where
    r: "r \<in> set startups" "try_body r = Inr (Some r')"
    by blast
  from try_body_SomeD [OF r(2)] obtain t amount where
    t: "get r ''funding_amount'' (Str ''0'') = Str t" "parse_funding t = Inr amount"
    and r': "r' = setitem r ''funding_amount_parsed'' (Str (format_funding amount))"
    by blast
  from t have p: "parse_funding (field r ''funding_amount'' ''0'') = Inr amount"
    by (simp add: field_def)
  have top: "set (top_funded s) \<subseteq> set filtered" if "display_summary filtered = Inr (Some s)" for s
  proof -
    from that obtain ranked where "sorted_startups filtered = Inr ranked"
      and s: "top_funded s = take 5 ranked"
      by (auto simp: display_summary_def attempt_def split: if_splits sum.splits)
    then have "set ranked = set filtered"
      using sorted_startups_mset by (metis set_mset_mset)
    with s show ?thesis
      using set_take_subset [of 5 ranked] by simp
  qed
  from r(1) p r' top show ?thesis
    by (auto simp: get_setitem setitem_absent sorted_startups_mset)
qed

theorem eligible_record_frame_witness:
  "outcome (filter_startups
      [[(''company_name'', Str ''Acme''), (''funding_amount'', Str ''150M''),
        (''location'', Str ''USA'')]])
     = Inr [[(''company_name'', Str ''Acme''), (''funding_amount'', Str ''150M''),
             (''location'', Str ''USA''), (''funding_amount_parsed'', Str ''$150,000,000'')]]
   \<and> (\<exists>r amount. r \<in> set [[(''company_name'', Str ''Acme''), (''funding_amount'', Str ''150M''),
                               (''location'', Str ''USA'')]]
        \<and> parse_funding (field r ''funding_amount'' ''0'') = Inr amount
        \<and> [(''company_name'', Str ''Acme''), (''funding_amount'', Str ''150M''),
            (''location'', Str ''USA''), (''funding_amount_parsed'', Str ''$150,000,000'')]
           = setitem r ''funding_amount_parsed'' (Str (format_funding amount)))"
proof -
  have h: "outcome (filter_startups
      [[(''company_name'', Str ''Acme''), (''funding_amount'', Str ''150M''),
        (''location'', Str ''USA'')]])
     = Inr [[(''company_name'', Str ''Acme''), (''funding_amount'', Str ''150M''),
             (''location'', Str ''USA''), (''funding_amount_parsed'', Str ''$150,000,000'')]]"
    by code_simp
  have m: "[(''company_name'', Str ''Acme''), (''funding_amount'', Str ''150M''),
            (''location'', Str ''USA''), (''funding_amount_parsed'', Str ''$150,000,000'')]
           \<in> set [[(''company_name'', Str ''Acme''), (''funding_amount'', Str ''150M''),
             (''location'', Str ''USA''), (''funding_amount_parsed'', Str ''$150,000,000'')]]"
    by simp
  from eligible_record_frame [OF h m] obtain r amount where
    "r \<in> set [[(''company_name'', Str ''Acme''), (''funding_amount'', Str ''150M''),
                               (''location'', Str ''USA'')]]"
    "parse_funding (field r ''funding_amount'' ''0'') = Inr amount"
    "[(''company_name'', Str ''Acme''), (''funding_amount'', Str ''150M''),
            (''location'', Str ''USA''), (''funding_amount_parsed'', Str ''$150,000,000'')]
           = setitem r ''funding_amount_parsed'' (Str (format_funding amount))"
    by blast
  with h show ?thesis
    by blast
qed

end
